theory Spec2Isabelle
  imports Main "HOL-Library.Multiset" "HOL-Library.Char_ord" "HOL-Library.List_Lexorder"
begin

section \<open>Operations and the Snapshot they fold into\<close>

text \<open>
  The files at hand are \<^verbatim>\<open>operations/create.go\<close>, \<^verbatim>\<open>operations/add_comment.go\<close>,
  \<^verbatim>\<open>commands/pull.go\<close> and the cache (\<^verbatim>\<open>RepoCache\<close>). Package \<^verbatim>\<open>bug\<close> (Person, OpBase,
  Snapshot, Comment, Bug, MergeResult) is used by them but not among them: its types
  are declared here with the fields the sources read and write, and its functions are
  modelled from the specification, each marked as such.
\<close>

type_synonym error = string
type_synonym Hash = string

datatype Person = Person (Name: string) (Email: string)

datatype OperationType = CreateOp | AddCommentOp

text \<open>A point in time: Go's zero \<^verbatim>\<open>time.Time\<close>, or \<^verbatim>\<open>time.Unix(sec, 0)\<close>.\<close>

datatype Time = ZeroTime | Unix int

record OpBase =
  opType :: OperationType
  opAuthor :: Person
  opUnixTime :: int

record Comment =
  Message :: string
  Author :: Person
  Files :: "Hash list"
  UnixTime :: int

text \<open>
  The Snapshot fields that the two \<^verbatim>\<open>Apply\<close> methods touch. The record is extensible:
  whatever further fields package \<^verbatim>\<open>bug\<close> declares live in the \<open>more\<close> part.
\<close>

record Snapshot =
  Title :: string
  Comments :: "Comment list"
  snapAuthor :: Person
  CreatedAt :: Time

datatype Operation =
    CreateOperation OpBase string string "Hash list"
  | AddCommentOperation OpBase string "Hash list"

text \<open>Modelled from the spec: \<^verbatim>\<open>OpBase.Time()\<close>, the operation's unix timestamp as a time.\<close>

definition Time :: "OpBase \<Rightarrow> Time" where
  "Time base = Unix (opUnixTime base)"

text \<open>
  Modelled from the spec: \<^verbatim>\<open>bug.NewOpBase\<close> fills the common fields of an operation
  (kind tag, author, unix timestamp); \<open>now\<close> is the clock reading it takes.
\<close>

definition NewOpBase :: "int \<Rightarrow> OperationType \<Rightarrow> Person \<Rightarrow> OpBase" where
  "NewOpBase now t author = \<lparr>opType = t, opAuthor = author, opUnixTime = now\<rparr>"

text \<open>
  \<^verbatim>\<open>CreateOperation.Apply\<close> and \<^verbatim>\<open>AddCommentOperation.Apply\<close>, dispatched on the variant.
  The Create comment literal leaves \<^verbatim>\<open>Files\<close> unset (nil).
\<close>

fun Apply :: "Operation \<Rightarrow> 'a Snapshot_scheme \<Rightarrow> 'a Snapshot_scheme" where
  "Apply (CreateOperation base title message files) snapshot =
     snapshot\<lparr>Title := title,
              Comments := [\<lparr>Message = message, Author = opAuthor base, Files = [],
                            UnixTime = opUnixTime base\<rparr>],
              snapAuthor := opAuthor base,
              CreatedAt := Time base\<rparr>"
| "Apply (AddCommentOperation base message files) snapshot =
     snapshot\<lparr>Comments := Comments snapshot @
                [\<lparr>Message = message, Author = opAuthor base, Files = files,
                  UnixTime = opUnixTime base\<rparr>]\<rparr>"

definition NewCreateOp :: "int \<Rightarrow> Person \<Rightarrow> string \<Rightarrow> string \<Rightarrow> Hash list \<Rightarrow> Operation" where
  "NewCreateOp now author title message files =
     CreateOperation (NewOpBase now CreateOp author) title message files"

definition NewAddCommentOp :: "int \<Rightarrow> Person \<Rightarrow> string \<Rightarrow> Hash list \<Rightarrow> Operation" where
  "NewAddCommentOp now author message files =
     AddCommentOperation (NewOpBase now AddCommentOp author) message files"

subsection \<open>The Bug aggregate\<close>

text \<open>
  Modelled from the spec: the Bug type, \<^verbatim>\<open>bug.NewBug\<close>, \<^verbatim>\<open>Append\<close> and \<^verbatim>\<open>Compile\<close> of
  package \<^verbatim>\<open>bug\<close>. A Bug is its committed operations followed by its staged ones;
  \<^verbatim>\<open>Append\<close> stages after everything staged so far; \<^verbatim>\<open>Compile\<close> folds committed then
  staged operations, left to right, into an initially empty Snapshot.
\<close>

record Bug =
  committed :: "Operation list"
  staged :: "Operation list"

definition NewBug :: Bug where
  "NewBug = \<lparr>committed = [], staged = []\<rparr>"

definition Append :: "Bug \<Rightarrow> Operation \<Rightarrow> Bug" where
  "Append b op = b\<lparr>staged := staged b @ [op]\<rparr>"

definition allOperations :: "Bug \<Rightarrow> Operation list" where
  "allOperations b = committed b @ staged b"

definition emptySnapshot :: Snapshot where
  "emptySnapshot = \<lparr>Title = [], Comments = [], snapAuthor = Person [] [],
                    CreatedAt = ZeroTime\<rparr>"

definition Compile :: "Bug \<Rightarrow> Snapshot" where
  "Compile b = foldl (\<lambda>snap op. Apply op snap) emptySnapshot (allOperations b)"

text \<open>
  \<^verbatim>\<open>CreateWithFiles\<close>: a fresh Bug with one staged Create operation; the error it
  returns is always nil. \<open>now\<close> is the clock reading taken by \<^verbatim>\<open>NewOpBase\<close>.
\<close>

definition CreateWithFiles ::
  "int \<Rightarrow> Person \<Rightarrow> string \<Rightarrow> string \<Rightarrow> Hash list \<Rightarrow> error + Bug" where
  "CreateWithFiles now author title message files =
     (let newBug = NewBug;
          createOp = NewCreateOp now author title message files
      in Inr (Append newBug createOp))"

definition Create :: "int \<Rightarrow> Person \<Rightarrow> string \<Rightarrow> string \<Rightarrow> error + Bug" where
  "Create now author title message = CreateWithFiles now author title message []"

definition CommentWithFiles :: "int \<Rightarrow> Bug \<Rightarrow> Person \<Rightarrow> string \<Rightarrow> Hash list \<Rightarrow> Bug" where
  "CommentWithFiles now b author message files =
     (let addCommentOp = NewAddCommentOp now author message files
      in Append b addCommentOp)"

subsection \<open>Snapshots in memory\<close>

text \<open>
  The two \<^verbatim>\<open>Apply\<close> methods take and return a Snapshot by value. Copying a Snapshot copies
  the header of its \<^verbatim>\<open>Comments\<close> slice (array, length, capacity) and not the array, so
  the Snapshot given and the Snapshot returned can share one array. What follows is the
  two methods over a memory of arrays; the functions above are what they compute on the
  contents.
\<close>

type_synonym addr = nat

record Slice =
  sliceArray :: addr
  sliceLen :: nat
  sliceCap :: nat

record Memory =
  arrays :: "addr \<Rightarrow> Comment list"
  nextFree :: addr



definition zeroComment :: Comment where
  "zeroComment = \<lparr>Message = [], Author = Person [] [], Files = [], UnixTime = 0\<rparr>"

definition readSlice :: "Memory \<Rightarrow> Slice \<Rightarrow> Comment list" where
  "readSlice mem s = take (sliceLen s) (arrays mem (sliceArray s))"

definition newArray :: "Memory \<Rightarrow> Comment list \<Rightarrow> Memory \<times> addr" where
  "newArray mem elems =
     (mem\<lparr>arrays := (arrays mem)(nextFree mem := elems), nextFree := Suc (nextFree mem)\<rparr>,
      nextFree mem)"

text \<open>
  Go's \<^verbatim>\<open>append(s, x)\<close>: with capacity to spare the element is written into the array of
  \<^verbatim>\<open>s\<close> at index \<^verbatim>\<open>len(s)\<close> and the header returned has the same array; otherwise a
  larger array is allocated, the elements are copied into it and the element is written
  there. How much larger is the runtime's choice: \<open>grow\<close> gives the new capacity from
  the old, and at least one more than the length is taken.
\<close>

definition appendComment :: "(nat \<Rightarrow> nat) \<Rightarrow> Memory \<Rightarrow> Slice \<Rightarrow> Comment \<Rightarrow> Memory \<times> Slice" where
  "appendComment grow mem s x =
     (if sliceLen s < sliceCap s
      then (mem\<lparr>arrays := (arrays mem)
                    (sliceArray s := (arrays mem (sliceArray s))[sliceLen s := x])\<rparr>,
            s\<lparr>sliceLen := Suc (sliceLen s)\<rparr>)
      else
        (let newcap = max (grow (sliceCap s)) (Suc (sliceLen s));
             (mem1, a) = newArray mem
                (readSlice mem s @ x # replicate (newcap - Suc (sliceLen s)) zeroComment)
         in (mem1, \<lparr>sliceArray = a, sliceLen = Suc (sliceLen s), sliceCap = newcap\<rparr>)))"








section \<open>The cache\<close>

subsection \<open>Data\<close>

text \<open>
  Modelled from the spec: the Excerpt type of the cache package. The source reads its
  \<^verbatim>\<open>Id\<close>; title, author, creation time and last-edit time are the attributes the
  specification gives it.
\<close>

record BugExcerpt =
  Id :: string
  excerptTitle :: string
  excerptAuthor :: Person
  CreateUnixTime :: int
  EditUnixTime :: int

type_synonym ExcerptIndex = "string \<rightharpoonup> BugExcerpt"

text \<open>
  Modelled from the spec: \<^verbatim>\<open>BugCache\<close>, the handle the cache memoizes. \<^verbatim>\<open>NewBugCache\<close>
  wraps a Bug, \<^verbatim>\<open>Snapshot()\<close> compiles the wrapped Bug.
\<close>

datatype BugCache = BugCache (bug: Bug)

definition NewBugCache :: "Bug \<Rightarrow> BugCache" where
  "NewBugCache b = BugCache b"

definition BugCacheSnapshot :: "BugCache \<Rightarrow> Snapshot" where
  "BugCacheSnapshot b = Compile (bug b)"

record RepoCache =
  excerpts :: ExcerptIndex
  bugs :: "string \<rightharpoonup> BugCache"

text \<open>The merge statuses the sources name, and the result record of \<^verbatim>\<open>bug.MergeAll\<close>.\<close>

datatype MergeStatus = MsgMergeNew | MsgMergeUpdated | MsgMergeNothing | MsgMergeInvalid

record MergeResult =
  Err :: "error option"
  resultId :: string
  Status :: MergeStatus
  resultBug :: Bug

text \<open>
  What the cache takes from outside the files at hand, for one call: the outcomes of the
  file-system calls on the private area, the serialization codec, the collaborator store
  (enumeration and reading of durable logs, writing operations, the acting user, the
  remote's merge results), the identity of a Bug and the Excerpt projection, both declared
  elsewhere. \<open>lockOutcome\<close> is what \<^verbatim>\<open>c.lock()\<close> returns; the lock protocol itself is
  not modelled.
\<close>

record World =
  lockOutcome :: "error option"
  openExcerpts :: "error + string"
  gobDecode :: "string \<Rightarrow> error + ExcerptIndex"
  gobEncode :: "ExcerptIndex \<Rightarrow> error + string"
  createExcerpts :: "error option"
  writeData :: "string \<Rightarrow> error option"
  closeFile :: "error option"
  ReadAllLocalBugs :: "Bug list"
  ReadLocalBug :: "string \<Rightarrow> error + Bug"
  GetUser :: "error + Person"
  storeOperations :: "Operation list \<Rightarrow> error option"
  bugId :: "Bug \<Rightarrow> string"
  NewBugExcerpt :: "Bug \<Rightarrow> Snapshot \<Rightarrow> BugExcerpt"
  clock :: int
  bugMergeAll :: "string \<Rightarrow> MergeResult list"

text \<open>
  The observable actions of a call, in order: a merge result sent on the output channel,
  the enumeration of all durable logs, a call of \<^verbatim>\<open>writeExcerpts\<close> with the index it
  encodes and the error it returns.
\<close>

datatype Event =
    Yield MergeResult
  | EnumerateBugs
  | WriteIndex ExcerptIndex "error option"

text \<open>A call returns a value or panics.\<close>

datatype 'a outcome = Return 'a | Panic string

text \<open>
  Go visits the entries of a map in an order of its own choosing. Every loop over the
  index takes that order as \<open>ord\<close>, an enumeration of the keys without repetition.
\<close>

definition iterationOrder :: "('k \<rightharpoonup> 'v) \<Rightarrow> 'k list \<Rightarrow> bool" where
  "iterationOrder m ord = (distinct ord \<and> set ord = dom m)"

definition rangeValues :: "('k \<rightharpoonup> 'v) \<Rightarrow> 'k list \<Rightarrow> 'v list" where
  "rangeValues m ord = List.map_filter m ord"

subsection \<open>Persistence of the index\<close>

text \<open>
  \<^verbatim>\<open>writeExcerpts\<close> returns the first error among encoding the index, creating the file,
  writing the data and closing the file; the call is recorded as one \<open>WriteIndex\<close>.
  \<^verbatim>\<open>loadExcerpts\<close> fails when the file cannot be opened or does not decode, and leaves
  the cache as it was. \<^verbatim>\<open>buildAllExcerpt\<close> starts from an empty index and stores, for each
  durable log the store delivers, the Excerpt of its compiled Snapshot under its identity.
\<close>

definition writeExcerpts :: "World \<Rightarrow> RepoCache \<Rightarrow> error option \<times> Event list" where
  "writeExcerpts w c =
     (let err =
        (case gobEncode w (excerpts c) of
           Inl err \<Rightarrow> Some err
         | Inr data \<Rightarrow>
            (case createExcerpts w of
               Some err \<Rightarrow> Some err
             | None \<Rightarrow>
                (case writeData w data of
                   Some err \<Rightarrow> Some err
                 | None \<Rightarrow> closeFile w)))
      in (err, [WriteIndex (excerpts c) err]))"




definition bugUpdated ::
  "World \<Rightarrow> RepoCache \<Rightarrow> string \<Rightarrow> (error option) outcome \<times> RepoCache \<times> Event list" where
  "bugUpdated w c ident =
     (case bugs c ident of
        None \<Rightarrow> (Panic ''missing bug in the cache'', c, [])
      | Some b \<Rightarrow>
         (let c1 = c\<lparr>excerpts := (excerpts c)(ident \<mapsto> NewBugExcerpt w (bug b) (BugCacheSnapshot b))\<rparr>;
              (werr, written) = writeExcerpts w c1
          in (Return werr, c1, written)))"

subsection \<open>Resolution\<close>

definition ResolveBug :: "World \<Rightarrow> RepoCache \<Rightarrow> string \<Rightarrow> (error + BugCache) \<times> RepoCache" where
  "ResolveBug w c ident =
     (case bugs c ident of
        Some cached \<Rightarrow> (Inr cached, c)
      | None \<Rightarrow>
         (case ReadLocalBug w ident of
            Inl err \<Rightarrow> (Inl err, c)
          | Inr b \<Rightarrow>
             (let cached = NewBugCache b
              in (Inr cached, c\<lparr>bugs := (bugs c)(ident \<mapsto> cached)\<rparr>))))"

text \<open>\<^verbatim>\<open>strings.HasPrefix\<close> and \<^verbatim>\<open>strings.Join\<close> of the Go library.\<close>

definition HasPrefix :: "string \<Rightarrow> string \<Rightarrow> bool" where
  "HasPrefix s p = (length s \<ge> length p \<and> take (length p) s = p)"

fun Join :: "string list \<Rightarrow> string \<Rightarrow> string" where
  "Join [] sep = []"
| "Join [s] sep = s"
| "Join (s # t # ss) sep = s @ sep @ Join (t # ss) sep"

text \<open>
  \<^verbatim>\<open>ResolveBugPrefix\<close>: the identities with the prefix are collected in iteration order;
  more than one is an error listing them; otherwise element 0 of the collection is
  resolved, and reading element 0 of an empty slice is a run-time panic.
\<close>

definition ResolveBugPrefix ::
  "World \<Rightarrow> RepoCache \<Rightarrow> string list \<Rightarrow> string \<Rightarrow> ((error + BugCache) outcome) \<times> RepoCache" where
  "ResolveBugPrefix w c ord prefix =
     (let matching = filter (\<lambda>ident. HasPrefix ident prefix) ord
      in if length matching > 1
         then (Return (Inl (''Multiple matching bug found:'' @ [CHR 0x0A] @
                             Join matching [CHR 0x0A])), c)
         else (case matching of
                 [] \<Rightarrow> (Panic ''runtime error: index out of range'', c)
               | m0 # _ \<Rightarrow> (let (r, c1) = ResolveBug w c m0 in (Return r, c1))))"

subsection \<open>Queries\<close>

text \<open>
  Modelled from the spec: the Query type with its \<^verbatim>\<open>Match\<close> predicate, the ordering keys
  and directions, and the three sorters' \<^verbatim>\<open>Less\<close>. \<open>OrderByOther\<close> stands for every
  value of the key's underlying integer type besides the three named ones. Identities
  compare as Go strings do, byte by byte.
\<close>

datatype OrderBy = OrderById | OrderByCreation | OrderByEdit | OrderByOther int

datatype OrderDirection = OrderAscending | OrderDescending

record Query =
  Match :: "BugExcerpt \<Rightarrow> bool"
  OrderBy :: OrderBy
  OrderDirection :: OrderDirection

definition BugsById :: "BugExcerpt \<Rightarrow> BugExcerpt \<Rightarrow> bool" where
  "BugsById a b = (Id a < Id b)"

definition BugsByCreationTime :: "BugExcerpt \<Rightarrow> BugExcerpt \<Rightarrow> bool" where
  "BugsByCreationTime a b = (CreateUnixTime a < CreateUnixTime b)"

definition BugsByEditTime :: "BugExcerpt \<Rightarrow> BugExcerpt \<Rightarrow> bool" where
  "BugsByEditTime a b = (EditUnixTime a < EditUnixTime b)"

text \<open>\<^verbatim>\<open>sort.Reverse\<close>: \<^verbatim>\<open>Less(i, j)\<close> of the wrapper is \<^verbatim>\<open>Less(j, i)\<close> of the wrapped.\<close>

definition Reverse :: "('a \<Rightarrow> 'a \<Rightarrow> bool) \<Rightarrow> 'a \<Rightarrow> 'a \<Rightarrow> bool" where
  "Reverse lt a b = lt b a"

definition AllBugsIds :: "RepoCache \<Rightarrow> string list \<Rightarrow> string list" where
  "AllBugsIds c ord = map Id (rangeValues (excerpts c) ord)"

text \<open>
  \<^verbatim>\<open>QueryBugs\<close>. \<open>srt\<close> is \<^verbatim>\<open>sort.Sort\<close> of the Go library, given the \<^verbatim>\<open>Less\<close> of the
  sorter and the slice it reorders; \<open>None\<close> is the nil query.
\<close>

definition QueryBugs ::
  "((BugExcerpt \<Rightarrow> BugExcerpt \<Rightarrow> bool) \<Rightarrow> BugExcerpt list \<Rightarrow> BugExcerpt list) \<Rightarrow>
   RepoCache \<Rightarrow> string list \<Rightarrow> Query option \<Rightarrow> (string list) outcome" where
  "QueryBugs srt c ord query =
     (case query of
        None \<Rightarrow> Return (AllBugsIds c ord)
      | Some q \<Rightarrow>
         (let filtered = filter (Match q) (rangeValues (excerpts c) ord)
          in case (case OrderBy q of
                     OrderById \<Rightarrow> Some BugsById
                   | OrderByCreation \<Rightarrow> Some BugsByCreationTime
                   | OrderByEdit \<Rightarrow> Some BugsByEditTime
                   | OrderByOther _ \<Rightarrow> None) of
               None \<Rightarrow> Panic ''missing sort type''
             | Some sorter \<Rightarrow>
                (let sorter1 = (if OrderDirection q = OrderDescending
                                then Reverse sorter else sorter)
                 in Return (map Id (srt sorter1 filtered)))))"

subsection \<open>Creation\<close>

text \<open>
  Modelled from the spec: \<^verbatim>\<open>Bug.Commit\<close>. The staged operations are written through the
  collaborator store; on success they become committed and the staged list is cleared, on
  failure the Bug is as before.
\<close>

definition Commit :: "World \<Rightarrow> Bug \<Rightarrow> error option \<times> Bug" where
  "Commit w b =
     (case storeOperations w (staged b) of
        Some err \<Rightarrow> (Some err, b)
      | None \<Rightarrow> (None, b\<lparr>committed := committed b @ staged b, staged := []\<rparr>))"

definition NewBugWithFiles ::
  "World \<Rightarrow> RepoCache \<Rightarrow> string \<Rightarrow> string \<Rightarrow> Hash list \<Rightarrow>
   ((error + BugCache) outcome) \<times> RepoCache \<times> Event list" where
  "NewBugWithFiles w c title message files =
     (case GetUser w of
        Inl err \<Rightarrow> (Return (Inl err), c, [])
      | Inr author \<Rightarrow>
         (case CreateWithFiles (clock w) author title message files of
            Inl err \<Rightarrow> (Return (Inl err), c, [])
          | Inr b0 \<Rightarrow>
             (case Commit w b0 of
                (Some err, _) \<Rightarrow> (Return (Inl err), c, [])
              | (None, b) \<Rightarrow>
                 (let cached = NewBugCache b;
                      c1 = c\<lparr>bugs := (bugs c)(bugId w b \<mapsto> cached)\<rparr>
                  in case bugUpdated w c1 (bugId w b) of
                       (Panic msg, c2, evs) \<Rightarrow> (Panic msg, c2, evs)
                     | (Return (Some err), c2, evs) \<Rightarrow> (Return (Inl err), c2, evs)
                     | (Return None, c2, evs) \<Rightarrow> (Return (Inr cached), c2, evs)))))"

definition NewBugInCache ::
  "World \<Rightarrow> RepoCache \<Rightarrow> string \<Rightarrow> string \<Rightarrow>
   ((error + BugCache) outcome) \<times> RepoCache \<times> Event list" where
  "NewBugInCache w c title message = NewBugWithFiles w c title message []"

subsection \<open>Merging\<close>

text \<open>
  The body of the goroutine of \<^verbatim>\<open>MergeAll\<close>, for a consumer that receives every result
  sent (the output channel is unbuffered: a send completes when the consumer takes the
  result). A result with an error is skipped by \<^verbatim>\<open>continue\<close> before the send; a New or
  Updated result replaces the Excerpt of its identity before it is sent.
\<close>

fun mergeLoop :: "World \<Rightarrow> MergeResult list \<Rightarrow> RepoCache \<Rightarrow> RepoCache \<times> Event list" where
  "mergeLoop w [] c = (c, [])"
| "mergeLoop w (result # results) c =
     (if Err result \<noteq> None then mergeLoop w results c
      else
        (let ident = resultId result;
             c1 = (case Status result of
                     MsgMergeNew \<Rightarrow>
                       c\<lparr>excerpts := (excerpts c)(ident \<mapsto>
                          NewBugExcerpt w (resultBug result) (Compile (resultBug result)))\<rparr>
                   | MsgMergeUpdated \<Rightarrow>
                       c\<lparr>excerpts := (excerpts c)(ident \<mapsto>
                          NewBugExcerpt w (resultBug result) (Compile (resultBug result)))\<rparr>
                   | _ \<Rightarrow> c);
             (c2, evs) = mergeLoop w results c1
         in (c2, Yield result # evs)))"

definition MergeAll :: "World \<Rightarrow> RepoCache \<Rightarrow> string \<Rightarrow> unit outcome \<times> RepoCache \<times> Event list" where
  "MergeAll w c remote =
     (let results = bugMergeAll w remote;
          (c1, yielded) = mergeLoop w results c;
          (err, written) = writeExcerpts w c1
      in case err of
           None \<Rightarrow> (Return (), c1, yielded @ written)
         | Some e \<Rightarrow> (Panic e, c1, yielded @ written))"

text \<open>
  The loop of \<^verbatim>\<open>runPull\<close> over the results it receives: the first result with an error
  ends the command with that error.
\<close>

fun runPullLoop :: "MergeResult list \<Rightarrow> error option" where
  "runPullLoop [] = None"
| "runPullLoop (merge # rest) =
     (case Err merge of Some err \<Rightarrow> Some err | None \<Rightarrow> runPullLoop rest)"

subsection \<open>The library sort on short slices\<close>

text \<open>
  \<^verbatim>\<open>sort.Sort\<close> belongs to the Go library, whose documentation says that the sort is not
  guaranteed to be stable. In the Go releases of the time of the source (up to 1.18) a
  slice of at most 12 elements is sorted by
  \<^verbatim>\<open>for i := a + 6; i < b; i++ { if data.Less(i, i-6) { data.Swap(i, i-6) } }\<close>
  followed by
  \<^verbatim>\<open>for i := a + 1; i < b; i++ { for j := i; j > a && data.Less(j, j-1); j-- { data.Swap(j, j-1) } }\<close>
  (one pass of Shell sort with gap 6, then insertion sort). \<open>sortShort\<close> is these
  two loops. On a longer slice the library partitions before it runs them; that phase is
  not modelled, and \<open>sortShort\<close> is applied to short slices only.
\<close>

definition Swap :: "'a list \<Rightarrow> nat \<Rightarrow> nat \<Rightarrow> 'a list" where
  "Swap data i j = data[i := data ! j, j := data ! i]"

function insertionInner :: "('a \<Rightarrow> 'a \<Rightarrow> bool) \<Rightarrow> nat \<Rightarrow> nat \<Rightarrow> 'a list \<Rightarrow> 'a list" where
  "insertionInner lt a j data =
     (if j > a \<and> lt (data ! j) (data ! (j - 1))
      then insertionInner lt a (j - 1) (Swap data j (j - 1))
      else data)"
  by pat_completeness auto
termination
  by (relation "measure (\<lambda>(lt, a, j, data). j)") auto

definition insertionSort :: "('a \<Rightarrow> 'a \<Rightarrow> bool) \<Rightarrow> 'a list \<Rightarrow> nat \<Rightarrow> nat \<Rightarrow> 'a list" where
  "insertionSort lt data a b = foldl (\<lambda>d i. insertionInner lt a i d) data [a + 1..<b]"

definition shellPass :: "('a \<Rightarrow> 'a \<Rightarrow> bool) \<Rightarrow> 'a list \<Rightarrow> nat \<Rightarrow> nat \<Rightarrow> 'a list" where
  "shellPass lt data a b =
     foldl (\<lambda>d i. if lt (d ! i) (d ! (i - 6)) then Swap d i (i - 6) else d) data [a + 6..<b]"

definition sortShort :: "('a \<Rightarrow> 'a \<Rightarrow> bool) \<Rightarrow> 'a list \<Rightarrow> 'a list" where
  "sortShort lt data =
     (let n = length data
      in if n > 1 then insertionSort lt (shellPass lt data 0 n) 0 n else data)"

text \<open>
  What the inner loop of the insertion sort does to the element it starts at, seen from
  the right end of the part already sorted (the list is that part reversed): the element
  passes every neighbour it is less than.
\<close>

fun insertLeft :: "('a \<Rightarrow> 'a \<Rightarrow> bool) \<Rightarrow> 'a \<Rightarrow> 'a list \<Rightarrow> 'a list" where
  "insertLeft lt x [] = [x]"
| "insertLeft lt x (y # ys) = (if lt x y then y # insertLeft lt x ys else x # y # ys)"

text \<open>
  What a call of \<^verbatim>\<open>sort.Sort\<close> promises for the slice and \<^verbatim>\<open>Less\<close> it is given: the
  same elements, none placed before an element that is less than it.
\<close>

definition sortedPermutation :: "('a \<Rightarrow> 'a \<Rightarrow> bool) \<Rightarrow> 'a list \<Rightarrow> 'a list \<Rightarrow> bool" where
  "sortedPermutation lt xs ys = (mset ys = mset xs \<and> sorted_wrt (\<lambda>a b. \<not> lt b a) ys)"

section \<open>Reference notions and example data\<close>



definition isWriteIndex :: "Event \<Rightarrow> bool" where
  "isWriteIndex e = (case e of WriteIndex _ _ \<Rightarrow> True | _ \<Rightarrow> False)"

text \<open>The ordering a key stands for, and the order a direction asks of a result.\<close>

definition keyLessEq :: "OrderBy \<Rightarrow> BugExcerpt \<Rightarrow> BugExcerpt \<Rightarrow> bool" where
  "keyLessEq k a b =
     (case k of
        OrderById \<Rightarrow> Id a \<le> Id b
      | OrderByCreation \<Rightarrow> CreateUnixTime a \<le> CreateUnixTime b
      | OrderByEdit \<Rightarrow> EditUnixTime a \<le> EditUnixTime b
      | OrderByOther _ \<Rightarrow> True)"

definition inRequestedOrder :: "Query \<Rightarrow> BugExcerpt list \<Rightarrow> bool" where
  "inRequestedOrder q ys =
     (if OrderDirection q = OrderDescending
      then sorted_wrt (\<lambda>a b. keyLessEq (OrderBy q) b a) ys
      else sorted_wrt (keyLessEq (OrderBy q)) ys)"

text \<open>
  Stability, as the claim words it: the elements with any one key value stand in the result
  in the order in which the filter emitted them.
\<close>

definition tiesKeepOrder :: "('a \<Rightarrow> 'k) \<Rightarrow> 'a list \<Rightarrow> 'a list \<Rightarrow> bool" where
  "tiesKeepOrder key emitted result =
     list_all (\<lambda>v. filter (\<lambda>e. key e = v) result = filter (\<lambda>e. key e = v) emitted)
       (map key emitted)"

text \<open>Example data: an identity and an Excerpt projection, a world, an index.\<close>

definition exampleId :: "Bug \<Rightarrow> string" where
  "exampleId b =
     (case allOperations b of
        CreateOperation _ title _ _ # _ \<Rightarrow> title
      | _ \<Rightarrow> [])"

definition exampleExcerpt :: "Bug \<Rightarrow> Snapshot \<Rightarrow> BugExcerpt" where
  "exampleExcerpt b snap =
     \<lparr>Id = exampleId b, excerptTitle = Title snap, excerptAuthor = snapAuthor snap,
      CreateUnixTime = (case CreatedAt snap of Unix t \<Rightarrow> t | ZeroTime \<Rightarrow> 0),
      EditUnixTime = (case Comments snap of [] \<Rightarrow> 0 | c # cs \<Rightarrow> UnixTime (last (c # cs)))\<rparr>"

definition ann :: Person where
  "ann = Person ''ann'' ''ann@example.org''"

definition exampleBug :: "string \<Rightarrow> int \<Rightarrow> Bug" where
  "exampleBug title t =
     \<lparr>committed = [CreateOperation \<lparr>opType = CreateOp, opAuthor = ann, opUnixTime = t\<rparr>
                     title ''text'' []],
      staged = []\<rparr>"

definition exampleWorld :: World where
  "exampleWorld =
     \<lparr>lockOutcome = None,
      openExcerpts = Inl ''open excerpts: no such file or directory'',
      gobDecode = (\<lambda>_. Inl ''unexpected EOF''),
      gobEncode = (\<lambda>_. Inr ''gob''),
      createExcerpts = None,
      writeData = (\<lambda>_. None),
      closeFile = None,
      ReadAllLocalBugs = [exampleBug ''abc123'' 10, exampleBug ''abc999'' 20],
      ReadLocalBug = (\<lambda>_. Inl ''bug doesn't exist''),
      GetUser = Inr ann,
      storeOperations = (\<lambda>_. None),
      bugId = exampleId,
      NewBugExcerpt = exampleExcerpt,
      clock = 1500,
      bugMergeAll = (\<lambda>_. [])\<rparr>"


definition excerptAt :: "string \<Rightarrow> int \<Rightarrow> BugExcerpt" where
  "excerptAt ident t =
     \<lparr>Id = ident, excerptTitle = ident, excerptAuthor = ann,
      CreateUnixTime = t, EditUnixTime = t\<rparr>"

definition twoBugs :: RepoCache where
  "twoBugs =
     \<lparr>excerpts = [''abc123'' \<mapsto> excerptAt ''abc123'' 10, ''abc999'' \<mapsto> excerptAt ''abc999'' 20],
      bugs = Map.empty\<rparr>"

definition sevenBugs :: RepoCache where
  "sevenBugs =
     \<lparr>excerpts = [''a'' \<mapsto> excerptAt ''a'' 2, ''b'' \<mapsto> excerptAt ''b'' 2,
                  ''c'' \<mapsto> excerptAt ''c'' 1, ''d'' \<mapsto> excerptAt ''d'' 1,
                  ''e'' \<mapsto> excerptAt ''e'' 1, ''f'' \<mapsto> excerptAt ''f'' 1,
                  ''g'' \<mapsto> excerptAt ''g'' 1],
      bugs = Map.empty\<rparr>"

definition everyBug :: "OrderBy \<Rightarrow> OrderDirection \<Rightarrow> Query" where
  "everyBug k d = \<lparr>Match = (\<lambda>_. True), OrderBy = k, OrderDirection = d\<rparr>"

definition divergedResult :: MergeResult where
  "divergedResult =
     \<lparr>Err = Some ''diverged operation logs'', resultId = ''abc123'',
      Status = MsgMergeInvalid, resultBug = exampleBug ''abc123'' 10\<rparr>"

definition updatedResult :: MergeResult where
  "updatedResult =
     \<lparr>Err = None, resultId = ''abc999'', Status = MsgMergeUpdated,
      resultBug = exampleBug ''abc999'' 20\<rparr>"








section \<open>Properties of the operations\<close>

text \<open>
  C10. \<^verbatim>\<open>AddCommentOperation.Apply\<close> appends exactly one Comment, carrying the
  operation's message, author, files and timestamp, at the end of the Snapshot's comment
  sequence; the title, the author, the creation time, every earlier comment and every
  further field of the Snapshot stay as they were.
\<close>

theorem AddComment_Apply_frame:
  "Comments (Apply (AddCommentOperation base message files) snapshot) =
     Comments snapshot @ [\<lparr>Message = message, Author = opAuthor base, Files = files,
                           UnixTime = opUnixTime base\<rparr>]
   \<and> length (Comments (Apply (AddCommentOperation base message files) snapshot)) =
       Suc (length (Comments snapshot))
   \<and> take (length (Comments snapshot))
       (Comments (Apply (AddCommentOperation base message files) snapshot)) = Comments snapshot
   \<and> Title (Apply (AddCommentOperation base message files) snapshot) = Title snapshot
   \<and> snapAuthor (Apply (AddCommentOperation base message files) snapshot) = snapAuthor snapshot
   \<and> CreatedAt (Apply (AddCommentOperation base message files) snapshot) = CreatedAt snapshot
   \<and> Snapshot.more (Apply (AddCommentOperation base message files) snapshot) =
       Snapshot.more snapshot"
  by simp

text \<open>
  C7. The Bug made by the creation factory has a Create operation first in its log
  (it is the whole log), and compiling it gives a Snapshot with the supplied title and
  author, the creation time of the factory's clock reading, and a single comment with the
  supplied message and author.
\<close>

theorem CreateWithFiles_Compile:
  "\<exists>b. CreateWithFiles now author title message files = Inr b
     \<and> allOperations b =
         [CreateOperation \<lparr>opType = CreateOp, opAuthor = author, opUnixTime = now\<rparr>
            title message files]
     \<and> Title (Compile b) = title
     \<and> snapAuthor (Compile b) = author
     \<and> CreatedAt (Compile b) = Unix now
     \<and> Comments (Compile b) =
         [\<lparr>Message = message, Author = author, Files = [], UnixTime = now\<rparr>]"
  by (simp add: CreateWithFiles_def NewBug_def Append_def NewCreateOp_def NewOpBase_def
      allOperations_def Compile_def Time_def)

subsection \<open>The fold in memory\<close>












lemma appendComment_in_place:
  "sliceLen s < sliceCap s \<Longrightarrow>
   sliceArray (snd (appendComment grow mem s x)) = sliceArray s
   \<and> arrays (fst (appendComment grow mem s x)) (sliceArray s) =
       (arrays mem (sliceArray s))[sliceLen s := x]"
  by (simp add: appendComment_def)






section \<open>Properties of the cache\<close>

subsection \<open>Merging\<close>

lemma mergeLoop_yields:
  "snd (mergeLoop w results c) = map Yield (filter (\<lambda>r. Err r = None) results)"
  by (induction results arbitrary: c)
     (simp_all add: Let_def case_prod_beta split: MergeStatus.splits)

lemma mergeLoop_bugs:
  "bugs (fst (mergeLoop w results c)) = bugs c"
  by (induction results arbitrary: c)
     (simp_all add: Let_def case_prod_beta split: MergeStatus.splits)

lemma writeExcerpts_events:
  "snd (writeExcerpts w c) = [WriteIndex (excerpts c) (fst (writeExcerpts w c))]"
  by (simp add: writeExcerpts_def Let_def)

lemma writeExcerpts_outcome:
  "fst (writeExcerpts w c) =
     (case gobEncode w (excerpts c) of
        Inl e \<Rightarrow> Some e
      | Inr data \<Rightarrow>
         (case createExcerpts w of
            Some e \<Rightarrow> Some e
          | None \<Rightarrow> (case writeData w data of Some e \<Rightarrow> Some e | None \<Rightarrow> closeFile w)))"
  by (simp add: writeExcerpts_def Let_def)

text \<open>
  C4. In a run of \<^verbatim>\<open>MergeAll\<close> whose results are all received, the index is written by
  one call of \<^verbatim>\<open>writeExcerpts\<close>, the last action of the run, after every send and with
  the index as the loop left it; no write happens among the sends. If encoding the index,
  creating the file, writing the data or closing the file fails, the run panics with that
  error; if all four succeed it ends normally.
\<close>

theorem MergeAll_persists_once:
  "\<exists>c1 err.
     MergeAll w c remote =
       ((case err of None \<Rightarrow> Return () | Some e \<Rightarrow> Panic e), c1,
        map Yield (filter (\<lambda>r. Err r = None) (bugMergeAll w remote)) @
          [WriteIndex (excerpts c1) err])
     \<and> c1 = fst (mergeLoop w (bugMergeAll w remote) c)
     \<and> err = fst (writeExcerpts w c1)
     \<and> length (filter isWriteIndex (snd (snd (MergeAll w c remote)))) = 1
     \<and> isWriteIndex (last (snd (snd (MergeAll w c remote))))
     \<and> (\<forall>e. gobEncode w (excerpts c1) = Inl e \<longrightarrow>
           err = Some e \<and> fst (MergeAll w c remote) = Panic e)
     \<and> (\<forall>data e. gobEncode w (excerpts c1) = Inr data \<and> createExcerpts w = Some e \<longrightarrow>
           err = Some e \<and> fst (MergeAll w c remote) = Panic e)
     \<and> (\<forall>data e. gobEncode w (excerpts c1) = Inr data \<and> createExcerpts w = None
            \<and> writeData w data = Some e \<longrightarrow>
           err = Some e \<and> fst (MergeAll w c remote) = Panic e)
     \<and> (\<forall>data e. gobEncode w (excerpts c1) = Inr data \<and> createExcerpts w = None
            \<and> writeData w data = None \<and> closeFile w = Some e \<longrightarrow>
           err = Some e \<and> fst (MergeAll w c remote) = Panic e)
     \<and> (\<forall>data. gobEncode w (excerpts c1) = Inr data \<and> createExcerpts w = None
            \<and> writeData w data = None \<and> closeFile w = None \<longrightarrow>
           err = None \<and> fst (MergeAll w c remote) = Return ())"
proof -
  obtain c1 ys where loop: "mergeLoop w (bugMergeAll w remote) c = (c1, ys)"
    by (cases "mergeLoop w (bugMergeAll w remote) c")
  obtain err evs where wr: "writeExcerpts w c1 = (err, evs)"
    by (cases "writeExcerpts w c1")
  have ys: "ys = map Yield (filter (\<lambda>r. Err r = None) (bugMergeAll w remote))"
    using mergeLoop_yields [of w "bugMergeAll w remote" c] loop by simp
  have evs: "evs = [WriteIndex (excerpts c1) err]"
    using writeExcerpts_events [of w c1] wr by simp
  have run: "MergeAll w c remote =
      ((case err of None \<Rightarrow> Return () | Some e \<Rightarrow> Panic e), c1, ys @ evs)"
    by (simp add: MergeAll_def Let_def loop wr split: option.splits)
  have nowrite: "filter isWriteIndex ys = []"
    by (simp add: ys filter_map o_def isWriteIndex_def)
  have err: "err =
     (case gobEncode w (excerpts c1) of
        Inl e \<Rightarrow> Some e
      | Inr data \<Rightarrow>
         (case createExcerpts w of
            Some e \<Rightarrow> Some e
          | None \<Rightarrow> (case writeData w data of Some e \<Rightarrow> Some e | None \<Rightarrow> closeFile w)))"
    using writeExcerpts_outcome [of w c1] wr by simp
  have fatal: "fst (MergeAll w c remote) = (case err of None \<Rightarrow> Return () | Some e \<Rightarrow> Panic e)"
    using run by simp
  have shape: "MergeAll w c remote =
       ((case err of None \<Rightarrow> Return () | Some e \<Rightarrow> Panic e), c1,
        map Yield (filter (\<lambda>r. Err r = None) (bugMergeAll w remote)) @
          [WriteIndex (excerpts c1) err])
     \<and> c1 = fst (mergeLoop w (bugMergeAll w remote) c)
     \<and> err = fst (writeExcerpts w c1)
     \<and> length (filter isWriteIndex (snd (snd (MergeAll w c remote)))) = 1
     \<and> isWriteIndex (last (snd (snd (MergeAll w c remote))))"
    using run ys evs loop wr nowrite by (auto simp: isWriteIndex_def)
  have world: "(\<forall>e. gobEncode w (excerpts c1) = Inl e \<longrightarrow>
           err = Some e \<and> fst (MergeAll w c remote) = Panic e)
     \<and> (\<forall>data e. gobEncode w (excerpts c1) = Inr data \<and> createExcerpts w = Some e \<longrightarrow>
           err = Some e \<and> fst (MergeAll w c remote) = Panic e)
     \<and> (\<forall>data e. gobEncode w (excerpts c1) = Inr data \<and> createExcerpts w = None
            \<and> writeData w data = Some e \<longrightarrow>
           err = Some e \<and> fst (MergeAll w c remote) = Panic e)
     \<and> (\<forall>data e. gobEncode w (excerpts c1) = Inr data \<and> createExcerpts w = None
            \<and> writeData w data = None \<and> closeFile w = Some e \<longrightarrow>
           err = Some e \<and> fst (MergeAll w c remote) = Panic e)
     \<and> (\<forall>data. gobEncode w (excerpts c1) = Inr data \<and> createExcerpts w = None
            \<and> writeData w data = None \<and> closeFile w = None \<longrightarrow>
           err = None \<and> fst (MergeAll w c remote) = Return ())"
    unfolding fatal by (simp add: err)
  from shape world show ?thesis by blast
qed

theorem MergeAll_persists_once_witness:
  "gobEncode (exampleWorld\<lparr>gobEncode := (\<lambda>_. Inl ''gob: type not registered'')\<rparr>)
       (excerpts twoBugs) = Inl ''gob: type not registered''
   \<and> fst (MergeAll (exampleWorld\<lparr>gobEncode := (\<lambda>_. Inl ''gob: type not registered'')\<rparr>)
            twoBugs ''origin'') = Panic ''gob: type not registered''
   \<and> createExcerpts (exampleWorld\<lparr>createExcerpts := Some ''permission denied''\<rparr>)
       = Some ''permission denied''
   \<and> fst (MergeAll (exampleWorld\<lparr>createExcerpts := Some ''permission denied''\<rparr>)
            twoBugs ''origin'') = Panic ''permission denied''
   \<and> writeData (exampleWorld\<lparr>writeData := (\<lambda>_. Some ''no space left on device'')\<rparr>) ''gob''
       = Some ''no space left on device''
   \<and> fst (MergeAll (exampleWorld\<lparr>writeData := (\<lambda>_. Some ''no space left on device'')\<rparr>)
            twoBugs ''origin'') = Panic ''no space left on device''
   \<and> closeFile (exampleWorld\<lparr>closeFile := Some ''input/output error''\<rparr>)
       = Some ''input/output error''
   \<and> fst (MergeAll (exampleWorld\<lparr>closeFile := Some ''input/output error''\<rparr>)
            twoBugs ''origin'') = Panic ''input/output error''
   \<and> fst (MergeAll exampleWorld twoBugs ''origin'') = Return ()
   \<and> snd (snd (MergeAll exampleWorld twoBugs ''origin'')) = [WriteIndex (excerpts twoBugs) None]"
proof -
  let ?w1 = "exampleWorld\<lparr>gobEncode := (\<lambda>_. Inl ''gob: type not registered'')\<rparr>"
  let ?w2 = "exampleWorld\<lparr>createExcerpts := Some ''permission denied''\<rparr>"
  let ?w3 = "exampleWorld\<lparr>writeData := (\<lambda>_. Some ''no space left on device'')\<rparr>"
  let ?w4 = "exampleWorld\<lparr>closeFile := Some ''input/output error''\<rparr>"
  have a: "fst (MergeAll ?w1 twoBugs ''origin'') = Panic ''gob: type not registered''"
    using MergeAll_persists_once [of ?w1 twoBugs "''origin''"] by auto
  have b: "fst (MergeAll ?w2 twoBugs ''origin'') = Panic ''permission denied''"
    using MergeAll_persists_once [of ?w2 twoBugs "''origin''"]
    by (auto simp: exampleWorld_def)
  have c: "fst (MergeAll ?w3 twoBugs ''origin'') = Panic ''no space left on device''"
    using MergeAll_persists_once [of ?w3 twoBugs "''origin''"]
    by (auto simp: exampleWorld_def)
  have d: "fst (MergeAll ?w4 twoBugs ''origin'') = Panic ''input/output error''"
    using MergeAll_persists_once [of ?w4 twoBugs "''origin''"]
    by (auto simp: exampleWorld_def)
  have e: "fst (MergeAll exampleWorld twoBugs ''origin'') = Return ()
      \<and> snd (snd (MergeAll exampleWorld twoBugs ''origin'')) = [WriteIndex (excerpts twoBugs) None]"
    using MergeAll_persists_once [of exampleWorld twoBugs "''origin''"]
    by (auto simp: exampleWorld_def)
  show ?thesis using a b c d e by (simp add: exampleWorld_def)
qed

text \<open>
  C2 (every result of the store, also one that carries an error, is sent to the caller,
  and an error does not end the batch). The store delivers a result with an error (a
  diverged log) and then an Updated result: the run goes on to the second result and to
  the write, so the batch is not ended, but the result with the error is never sent.
  \<^verbatim>\<open>runPull\<close> tests \<^verbatim>\<open>merge.Err\<close> on each result it receives;
  \<open>MergeAll_yields_no_error\<close> shows that the test never fires.
\<close>

theorem MergeAll_drops_error_result:
  "snd (snd (MergeAll (exampleWorld\<lparr>bugMergeAll := (\<lambda>_. [divergedResult, updatedResult])\<rparr>)
                twoBugs ''origin''))
     = [Yield updatedResult,
        WriteIndex ((excerpts twoBugs)(''abc999'' \<mapsto> exampleExcerpt (exampleBug ''abc999'' 20)
                       (Compile (exampleBug ''abc999'' 20)))) None]
   \<and> Err divergedResult = Some ''diverged operation logs''"
  by (simp add: MergeAll_def Let_def writeExcerpts_def exampleWorld_def divergedResult_def
      updatedResult_def)

lemma mergeLoop_sends_no_error:
  "Yield r \<in> set (snd (mergeLoop w results c)) \<Longrightarrow> Err r = None"
  by (auto simp: mergeLoop_yields)

lemma MergeAll_yields_no_error:
  "Yield r \<in> set (snd (snd (MergeAll w c remote))) \<Longrightarrow> Err r = None"
  by (auto simp: MergeAll_def Let_def case_prod_beta writeExcerpts_def mergeLoop_yields
      split: option.splits)

lemma runPullLoop_no_error:
  "\<forall>r \<in> set rs. Err r = None \<Longrightarrow> runPullLoop rs = None"
  by (induction rs) auto

text \<open>So \<^verbatim>\<open>runPull\<close> receives every result that \<^verbatim>\<open>MergeAll\<close> sends and never ends early.\<close>

lemma runPull_receives_all:
  "runPullLoop (filter (\<lambda>r. Err r = None) (bugMergeAll w remote)) = None"
  by (rule runPullLoop_no_error) simp

subsection \<open>Resolution by prefix\<close>

text \<open>
  C1 (a prefix that no identity starts with gives a not-found error, not an abort). Two
  identities, \<^verbatim>\<open>abc123\<close> and \<^verbatim>\<open>abc999\<close>, and the prefix \<^verbatim>\<open>zzz\<close> that matches
  neither: the call does not return an error, it panics on element 0 of the empty
  collection of matches.
\<close>

theorem ResolveBugPrefix_no_match_panics:
  "iterationOrder (excerpts twoBugs) [''abc123'', ''abc999'']
   \<and> ResolveBugPrefix w twoBugs [''abc123'', ''abc999''] ''zzz''
       = (Panic ''runtime error: index out of range'', twoBugs)"
  by (auto simp: iterationOrder_def twoBugs_def ResolveBugPrefix_def HasPrefix_def)

text \<open>
  In general: with no match the call panics, with one match it resolves that identity,
  with several it returns an error whose message lists every matching identity.
\<close>

lemma ResolveBugPrefix_none:
  "filter (\<lambda>ident. HasPrefix ident prefix) ord = [] \<Longrightarrow>
   ResolveBugPrefix w c ord prefix = (Panic ''runtime error: index out of range'', c)"
  by (simp add: ResolveBugPrefix_def)

lemma ResolveBugPrefix_unique:
  "filter (\<lambda>ident. HasPrefix ident prefix) ord = [m] \<Longrightarrow>
   ResolveBugPrefix w c ord prefix = (Return (fst (ResolveBug w c m)), snd (ResolveBug w c m))"
  by (simp add: ResolveBugPrefix_def case_prod_beta)

lemma ResolveBugPrefix_ambiguous:
  "length (filter (\<lambda>ident. HasPrefix ident prefix) ord) > 1 \<Longrightarrow>
   ResolveBugPrefix w c ord prefix =
     (Return (Inl (''Multiple matching bug found:'' @ [CHR 0x0A] @
                    Join (filter (\<lambda>ident. HasPrefix ident prefix) ord) [CHR 0x0A])), c)"
  by (simp add: ResolveBugPrefix_def)

lemma matching_identities:
  "iterationOrder m ord \<Longrightarrow>
   set (filter (\<lambda>ident. HasPrefix ident prefix) ord) = {ident \<in> dom m. HasPrefix ident prefix}"
  by (auto simp: iterationOrder_def)

subsection \<open>Opening the cache\<close>








subsection \<open>Creating a Bug through the cache\<close>








subsection \<open>The library sort on short slices\<close>

text \<open>
  The two loops sort: for a \<^verbatim>\<open>Less\<close> that is asymmetric and whose negation is transitive
  (a strict weak order, as the sorters here are), \<open>sortShort\<close> returns a sorted
  permutation of any slice.
\<close>

lemma length_Swap [simp]: "length (Swap d i j) = length d"
  by (simp add: Swap_def)

lemma mset_Swap: "i < length d \<Longrightarrow> j < length d \<Longrightarrow> mset (Swap d i j) = mset d"
  unfolding Swap_def by (rule mset_swap)

lemma Swap_adjacent:
  "Swap (pre @ y # x # post) (Suc (length pre)) (length pre) = pre @ x # y # post"
  by (simp add: Swap_def nth_append list_update_append)

lemma insertionInner_insertLeft:
  "j < length d \<Longrightarrow>
   insertionInner lt 0 j d = rev (insertLeft lt (d ! j) (rev (take j d))) @ drop (Suc j) d"
proof (induction j arbitrary: d)
  case 0
  then show ?case
    by (cases d) simp_all
next
  case (Suc k)
  define pre where "pre = take k d"
  define post where "post = drop (Suc (Suc k)) d"
  have d: "d = pre @ d ! k # d ! Suc k # post"
    using Suc.prems unfolding pre_def post_def
    by (metis Cons_nth_drop_Suc Suc_lessD append_take_drop_id)
  have len: "length pre = k"
    using Suc.prems by (simp add: pre_def)
  have tk: "take (Suc k) d = pre @ [d ! k]"
    using Suc.prems by (simp add: pre_def take_Suc_conv_app_nth)
  show ?case
  proof (cases "lt (d ! Suc k) (d ! k)")
    case True
    have sw: "Swap d (Suc k) k = pre @ d ! Suc k # d ! k # post"
      using Swap_adjacent [of pre "d ! k" "d ! Suc k" post] d len by simp
    have "insertionInner lt 0 (Suc k) d = insertionInner lt 0 k (Swap d (Suc k) k)"
      using True by simp
    also have "\<dots> = rev (insertLeft lt (Swap d (Suc k) k ! k) (rev (take k (Swap d (Suc k) k))))
                      @ drop (Suc k) (Swap d (Suc k) k)"
      using Suc.prems by (intro Suc.IH) simp
    also have "\<dots> = rev (insertLeft lt (d ! Suc k) (rev pre)) @ d ! k # post"
      using len by (simp add: sw nth_append)
    finally show ?thesis
      using True by (simp add: tk post_def)
  next
    case False
    have "insertionInner lt 0 (Suc k) d = d"
      using False by simp
    moreover have "rev (insertLeft lt (d ! Suc k) (rev (take (Suc k) d))) @ drop (Suc (Suc k)) d
          = pre @ d ! k # d ! Suc k # post"
      using False by (simp add: tk post_def)
    ultimately show ?thesis using d by simp
  qed
qed

lemma mset_insertLeft: "mset (insertLeft lt x ys) = add_mset x (mset ys)"
  by (induction ys) simp_all

lemma set_insertLeft: "set (insertLeft lt x ys) = insert x (set ys)"
  by (induction ys) auto

lemma length_insertLeft: "length (insertLeft lt x ys) = Suc (length ys)"
  by (induction ys) simp_all

lemma sorted_insertLeft:
  assumes asym: "\<And>a b. lt a b \<Longrightarrow> \<not> lt b a"
      and trans: "\<And>a b c. \<not> lt b a \<Longrightarrow> \<not> lt c b \<Longrightarrow> \<not> lt c a"
  shows "sorted_wrt (\<lambda>a b. \<not> lt a b) ys \<Longrightarrow> sorted_wrt (\<lambda>a b. \<not> lt a b) (insertLeft lt x ys)"
proof (induction ys)
  case Nil
  show ?case by simp
next
  case (Cons y ys)
  show ?case
  proof (cases "lt x y")
    case True
    then show ?thesis
      using Cons asym by (auto simp: set_insertLeft)
  next
    case False
    have "\<not> lt x z" if "z \<in> set ys" for z
      using Cons.prems that False trans [of y z x] by auto
    then show ?thesis
      using Cons.prems False by auto
  qed
qed

lemma insertionSort_prefix:
  assumes asym: "\<And>a b. lt a b \<Longrightarrow> \<not> lt b a"
      and trans: "\<And>a b c. \<not> lt b a \<Longrightarrow> \<not> lt c b \<Longrightarrow> \<not> lt c a"
  shows "n \<le> length d \<Longrightarrow>
         \<exists>p. insertionSort lt d 0 n = p @ drop n d \<and> length p = n
            \<and> mset p = mset (take n d) \<and> sorted_wrt (\<lambda>a b. \<not> lt b a) p"
proof (induction n)
  case 0
  show ?case by (simp add: insertionSort_def)
next
  case (Suc n)
  show ?case
  proof (cases "n = 0")
    case True
    then show ?thesis
      using Suc.prems
      by (cases d) (simp_all add: insertionSort_def)
  next
    case False
    from Suc obtain p where p: "insertionSort lt d 0 n = p @ drop n d" "length p = n"
        "mset p = mset (take n d)" "sorted_wrt (\<lambda>a b. \<not> lt b a) p"
      by auto
    have upt: "[0 + 1..<Suc n] = [0 + 1..<n] @ [n]"
      using False by simp
    have nth: "(p @ drop n d) ! n = d ! n"
      using p(2) Suc.prems by (simp add: nth_append)
    have step: "insertionSort lt d 0 (Suc n) = insertionInner lt 0 n (p @ drop n d)"
      using p(1) unfolding insertionSort_def upt by simp
    have "insertionInner lt 0 n (p @ drop n d) =
            rev (insertLeft lt (d ! n) (rev p)) @ drop (Suc n) d"
      using insertionInner_insertLeft [of n "p @ drop n d" lt] p(2) Suc.prems nth by simp
    moreover have "sorted_wrt (\<lambda>a b. \<not> lt b a) (rev (insertLeft lt (d ! n) (rev p)))"
      using sorted_insertLeft [where lt = lt and ys = "rev p" and x = "d ! n", OF asym trans] p(4)
      by (simp add: sorted_wrt_rev)
    moreover have "mset (rev (insertLeft lt (d ! n) (rev p))) = mset (take (Suc n) d)"
      using p(3) Suc.prems by (simp add: mset_insertLeft take_Suc_conv_app_nth)
    moreover have "length (rev (insertLeft lt (d ! n) (rev p))) = Suc n"
      using p(2) by (simp add: length_insertLeft)
    ultimately show ?thesis
      using step by auto
  qed
qed

lemma shellPass_steps:
  "\<forall>i \<in> set is. i < length d \<Longrightarrow>
   length (foldl (\<lambda>d i. if lt (d ! i) (d ! (i - 6)) then Swap d i (i - 6) else d) d is) = length d
   \<and> mset (foldl (\<lambda>d i. if lt (d ! i) (d ! (i - 6)) then Swap d i (i - 6) else d) d is) = mset d"
proof (induction "is" arbitrary: d)
  case Nil
  show ?case by simp
next
  case (Cons i "is")
  have i: "i < length d" "i - 6 < length d"
    using Cons.prems by auto
  show ?case
    using Cons.IH [of "if lt (d ! i) (d ! (i - 6)) then Swap d i (i - 6) else d"] Cons.prems i
    by (simp add: mset_Swap)
qed

lemma shellPass_permutes:
  "length (shellPass lt d 0 (length d)) = length d \<and> mset (shellPass lt d 0 (length d)) = mset d"
  unfolding shellPass_def by (rule shellPass_steps) simp

lemma sortShort_sorts:
  assumes asym: "\<And>a b. lt a b \<Longrightarrow> \<not> lt b a"
      and trans: "\<And>a b c. \<not> lt b a \<Longrightarrow> \<not> lt c b \<Longrightarrow> \<not> lt c a"
  shows "sortedPermutation lt xs (sortShort lt xs)"
proof (cases "length xs > 1")
  case True
  let ?d = "shellPass lt xs 0 (length xs)"
  have len: "length ?d = length xs" and ms: "mset ?d = mset xs"
    using shellPass_permutes [of lt xs] by simp_all
  obtain p where p: "insertionSort lt ?d 0 (length xs) = p @ drop (length xs) ?d"
      "mset p = mset (take (length xs) ?d)" "sorted_wrt (\<lambda>a b. \<not> lt b a) p"
    using insertionSort_prefix [where lt = lt and n = "length xs" and d = ?d, OF asym trans] len
    by auto
  have "sortShort lt xs = p"
    using True p(1) len by (simp add: sortShort_def Let_def)
  then show ?thesis
    using p(2,3) len ms by (simp add: sortedPermutation_def)
next
  case False
  then have "xs = [] \<or> (\<exists>x. xs = [x])"
    by (cases xs) auto
  then show ?thesis
    using False by (auto simp: sortShort_def sortedPermutation_def)
qed

lemma sorters_sortShort:
  "\<forall>lt \<in> {BugsById, BugsByCreationTime, BugsByEditTime,
           Reverse BugsById, Reverse BugsByCreationTime, Reverse BugsByEditTime}.
     sortedPermutation lt xs (sortShort lt xs)"
  by (auto intro!: sortShort_sorts
      simp: BugsById_def BugsByCreationTime_def BugsByEditTime_def Reverse_def)

subsection \<open>Queries\<close>

lemma rangeValues_set:
  assumes "iterationOrder m ord"
  shows "set (rangeValues m ord) = ran m"
proof -
  have d: "set ord = dom m" using assms by (simp add: iterationOrder_def)
  have "set (rangeValues m ord) = (the \<circ> m) ` {k \<in> set ord. m k \<noteq> None}"
    by (simp add: rangeValues_def List.map_filter_def)
  also have "\<dots> = (the \<circ> m) ` dom m"
    using d by (auto simp: dom_def)
  also have "\<dots> = ran m"
    by (auto simp: ran_def dom_def image_iff) (metis option.sel)
  finally show ?thesis .
qed

lemma sorted_by_sorter:
  assumes "sorted_wrt (\<lambda>a b. \<not> lt b a) ys"
      and "\<And>a b. lt a b = (key a < key b)"
  shows "sorted_wrt (\<lambda>a b. (key a :: 'k :: linorder) \<le> key b) ys"
  using assms(1) by (rule sorted_wrt_mono_rel [rotated]) (simp add: assms(2) not_less)

lemma sorted_by_reversed:
  assumes "sorted_wrt (\<lambda>a b. \<not> Reverse lt b a) ys"
      and "\<And>a b. lt a b = (key a < key b)"
  shows "sorted_wrt (\<lambda>a b. (key b :: 'k :: linorder) \<le> key a) ys"
  using assms(1) by (rule sorted_wrt_mono_rel [rotated]) (simp add: assms(2) not_less Reverse_def)

lemma keyLessEq_keys:
  "keyLessEq OrderById = (\<lambda>a b. Id a \<le> Id b)"
  "keyLessEq OrderByCreation = (\<lambda>a b. CreateUnixTime a \<le> CreateUnixTime b)"
  "keyLessEq OrderByEdit = (\<lambda>a b. EditUnixTime a \<le> EditUnixTime b)"
  by (simp_all add: fun_eq_iff keyLessEq_def)

text \<open>
  C8. A query ordered by one of the three keys makes \<^verbatim>\<open>QueryBugs\<close> return a result;
  a query with any other key makes it panic with \<^verbatim>\<open>missing sort type\<close>.
\<close>

theorem QueryBugs_order_key:
  "(OrderBy q = OrderById \<or> OrderBy q = OrderByCreation \<or> OrderBy q = OrderByEdit \<longrightarrow>
      (\<exists>ids. QueryBugs srt c ord (Some q) = Return ids))
   \<and> (\<forall>n. OrderBy q = OrderByOther n \<longrightarrow>
        QueryBugs srt c ord (Some q) = Panic ''missing sort type'')"
  by (auto simp: QueryBugs_def Let_def)

theorem QueryBugs_order_key_witness:
  "(OrderBy (everyBug OrderByCreation OrderAscending) = OrderById
      \<or> OrderBy (everyBug OrderByCreation OrderAscending) = OrderByCreation
      \<or> OrderBy (everyBug OrderByCreation OrderAscending) = OrderByEdit)
   \<and> (\<exists>ids. QueryBugs sortShort sevenBugs [''a'', ''b'', ''c'', ''d'', ''e'', ''f'', ''g'']
               (Some (everyBug OrderByCreation OrderAscending)) = Return ids)
   \<and> OrderBy (everyBug (OrderByOther 0) OrderAscending) = OrderByOther 0
   \<and> QueryBugs sortShort sevenBugs [''a'', ''b'', ''c'', ''d'', ''e'', ''f'', ''g'']
         (Some (everyBug (OrderByOther 0) OrderAscending)) = Panic ''missing sort type''"
  using QueryBugs_order_key [of "everyBug OrderByCreation OrderAscending" sortShort sevenBugs
          "[''a'', ''b'', ''c'', ''d'', ''e'', ''f'', ''g'']"]
        QueryBugs_order_key [of "everyBug (OrderByOther 0) OrderAscending" sortShort sevenBugs
          "[''a'', ''b'', ''c'', ''d'', ''e'', ''f'', ''g'']"]
  by (simp add: everyBug_def)

text \<open>
  C3, as amended. For a query with one of the three keys, if \<^verbatim>\<open>sort.Sort\<close> returns the
  slice of this call as a sorted permutation for the package's sorters and their
  reversals, then \<^verbatim>\<open>QueryBugs\<close> returns the identities of exactly the Excerpts that
  satisfy \<^verbatim>\<open>Match\<close>, each as often as it is in the index, ordered by the requested key,
  ascending or descending as the direction says. Nothing is promised about the relative
  order of Excerpts with equal keys.
\<close>

theorem QueryBugs_sorted_matches:
  assumes ord: "iterationOrder (excerpts c) ord"
      and key: "OrderBy q = OrderById \<or> OrderBy q = OrderByCreation \<or> OrderBy q = OrderByEdit"
      and srt: "\<forall>lt \<in> {BugsById, BugsByCreationTime, BugsByEditTime,
                       Reverse BugsById, Reverse BugsByCreationTime, Reverse BugsByEditTime}.
                 sortedPermutation lt (filter (Match q) (rangeValues (excerpts c) ord))
                   (srt lt (filter (Match q) (rangeValues (excerpts c) ord)))"
  shows "\<exists>ys. QueryBugs srt c ord (Some q) = Return (map Id ys)
           \<and> mset ys = mset (filter (Match q) (rangeValues (excerpts c) ord))
           \<and> set ys = {e \<in> ran (excerpts c). Match q e}
           \<and> inRequestedOrder q ys"
proof -
  let ?xs = "filter (Match q) (rangeValues (excerpts c) ord)"
  have setxs: "set ?xs = {e \<in> ran (excerpts c). Match q e}"
    using rangeValues_set [OF ord] by auto
  have sp: "\<And>lt. lt \<in> {BugsById, BugsByCreationTime, BugsByEditTime,
                       Reverse BugsById, Reverse BugsByCreationTime, Reverse BugsByEditTime}
              \<Longrightarrow> sortedPermutation lt ?xs (srt lt ?xs)"
    by (rule bspec [OF srt])
  have perm: "mset (srt lt ?xs) = mset ?xs \<and> sorted_wrt (\<lambda>a b. \<not> lt b a) (srt lt ?xs)"
    if "sortedPermutation lt ?xs (srt lt ?xs)" for lt
    using that by (simp add: sortedPermutation_def)
  have sets: "set (srt lt ?xs) = {e \<in> ran (excerpts c). Match q e}"
    if "sortedPermutation lt ?xs (srt lt ?xs)" for lt
    using mset_eq_setD [of "srt lt ?xs" ?xs] perm [OF that] setxs by simp
  have s1: "sortedPermutation BugsById ?xs (srt BugsById ?xs)" by (rule sp) simp
  have s2: "sortedPermutation BugsByCreationTime ?xs (srt BugsByCreationTime ?xs)"
    by (rule sp) simp
  have s3: "sortedPermutation BugsByEditTime ?xs (srt BugsByEditTime ?xs)" by (rule sp) simp
  have r1: "sortedPermutation (Reverse BugsById) ?xs (srt (Reverse BugsById) ?xs)"
    by (rule sp) simp
  have r2: "sortedPermutation (Reverse BugsByCreationTime) ?xs
              (srt (Reverse BugsByCreationTime) ?xs)"
    by (rule sp) simp
  have r3: "sortedPermutation (Reverse BugsByEditTime) ?xs (srt (Reverse BugsByEditTime) ?xs)"
    by (rule sp) simp
  show ?thesis
  proof (cases "OrderDirection q = OrderDescending")
    case True
    from key show ?thesis
    proof (elim disjE)
      assume k: "OrderBy q = OrderById"
      have "sorted_wrt (\<lambda>a b. Id b \<le> Id a) (srt (Reverse BugsById) ?xs)"
        using perm [OF r1] by (intro sorted_by_reversed [of BugsById]) (simp_all add: BugsById_def)
      then show ?thesis
        using perm [OF r1] sets [OF r1] True k
        by (intro exI [of _ "srt (Reverse BugsById) ?xs"])
           (simp add: QueryBugs_def Let_def inRequestedOrder_def keyLessEq_keys)
    next
      assume k: "OrderBy q = OrderByCreation"
      have "sorted_wrt (\<lambda>a b. CreateUnixTime b \<le> CreateUnixTime a) (srt (Reverse BugsByCreationTime) ?xs)"
        using perm [OF r2]
        by (intro sorted_by_reversed [of BugsByCreationTime]) (simp_all add: BugsByCreationTime_def)
      then show ?thesis
        using perm [OF r2] sets [OF r2] True k
        by (intro exI [of _ "srt (Reverse BugsByCreationTime) ?xs"])
           (simp add: QueryBugs_def Let_def inRequestedOrder_def keyLessEq_keys)
    next
      assume k: "OrderBy q = OrderByEdit"
      have "sorted_wrt (\<lambda>a b. EditUnixTime b \<le> EditUnixTime a) (srt (Reverse BugsByEditTime) ?xs)"
        using perm [OF r3]
        by (intro sorted_by_reversed [of BugsByEditTime]) (simp_all add: BugsByEditTime_def)
      then show ?thesis
        using perm [OF r3] sets [OF r3] True k
        by (intro exI [of _ "srt (Reverse BugsByEditTime) ?xs"])
           (simp add: QueryBugs_def Let_def inRequestedOrder_def keyLessEq_keys)
    qed
  next
    case False
    from key show ?thesis
    proof (elim disjE)
      assume k: "OrderBy q = OrderById"
      have "sorted_wrt (\<lambda>a b. Id a \<le> Id b) (srt BugsById ?xs)"
        using perm [OF s1] by (intro sorted_by_sorter [of BugsById]) (simp_all add: BugsById_def)
      then show ?thesis
        using perm [OF s1] sets [OF s1] False k
        by (intro exI [of _ "srt BugsById ?xs"])
           (simp add: QueryBugs_def Let_def inRequestedOrder_def keyLessEq_keys)
    next
      assume k: "OrderBy q = OrderByCreation"
      have "sorted_wrt (\<lambda>a b. CreateUnixTime a \<le> CreateUnixTime b) (srt BugsByCreationTime ?xs)"
        using perm [OF s2]
        by (intro sorted_by_sorter [of BugsByCreationTime]) (simp_all add: BugsByCreationTime_def)
      then show ?thesis
        using perm [OF s2] sets [OF s2] False k
        by (intro exI [of _ "srt BugsByCreationTime ?xs"])
           (simp add: QueryBugs_def Let_def inRequestedOrder_def keyLessEq_keys)
    next
      assume k: "OrderBy q = OrderByEdit"
      have "sorted_wrt (\<lambda>a b. EditUnixTime a \<le> EditUnixTime b) (srt BugsByEditTime ?xs)"
        using perm [OF s3]
        by (intro sorted_by_sorter [of BugsByEditTime]) (simp_all add: BugsByEditTime_def)
      then show ?thesis
        using perm [OF s3] sets [OF s3] False k
        by (intro exI [of _ "srt BugsByEditTime ?xs"])
           (simp add: QueryBugs_def Let_def inRequestedOrder_def keyLessEq_keys)
    qed
  qed
qed

lemma sevenBugs_order:
  "iterationOrder (excerpts sevenBugs) [''a'', ''b'', ''c'', ''d'', ''e'', ''f'', ''g'']"
  by (auto simp: iterationOrder_def sevenBugs_def)

lemma sevenBugs_emitted:
  "filter (Match (everyBug k d))
     (rangeValues (excerpts sevenBugs) [''a'', ''b'', ''c'', ''d'', ''e'', ''f'', ''g'']) =
   [excerptAt ''a'' 2, excerptAt ''b'' 2, excerptAt ''c'' 1, excerptAt ''d'' 1,
    excerptAt ''e'' 1, excerptAt ''f'' 1, excerptAt ''g'' 1]"
  by (simp add: everyBug_def rangeValues_def sevenBugs_def)

lemma sortShort_seven_by_creation:
  "sortShort BugsByCreationTime
     [excerptAt ''a'' 2, excerptAt ''b'' 2, excerptAt ''c'' 1, excerptAt ''d'' 1,
      excerptAt ''e'' 1, excerptAt ''f'' 1, excerptAt ''g'' 1] =
   [excerptAt ''g'' 1, excerptAt ''c'' 1, excerptAt ''d'' 1, excerptAt ''e'' 1,
    excerptAt ''f'' 1, excerptAt ''b'' 2, excerptAt ''a'' 2]"
  by code_simp

theorem QueryBugs_sorted_matches_witness:
  "iterationOrder (excerpts sevenBugs) [''a'', ''b'', ''c'', ''d'', ''e'', ''f'', ''g'']
   \<and> OrderBy (everyBug OrderByCreation OrderAscending) = OrderByCreation
   \<and> sortedPermutation BugsByCreationTime
        (filter (Match (everyBug OrderByCreation OrderAscending))
           (rangeValues (excerpts sevenBugs) [''a'', ''b'', ''c'', ''d'', ''e'', ''f'', ''g'']))
        (sortShort BugsByCreationTime
           (filter (Match (everyBug OrderByCreation OrderAscending))
              (rangeValues (excerpts sevenBugs) [''a'', ''b'', ''c'', ''d'', ''e'', ''f'', ''g''])))
   \<and> (\<exists>ys. QueryBugs sortShort sevenBugs [''a'', ''b'', ''c'', ''d'', ''e'', ''f'', ''g'']
                (Some (everyBug OrderByCreation OrderAscending)) = Return (map Id ys)
           \<and> mset ys = mset (filter (Match (everyBug OrderByCreation OrderAscending))
                (rangeValues (excerpts sevenBugs) [''a'', ''b'', ''c'', ''d'', ''e'', ''f'', ''g'']))
           \<and> set ys = {e \<in> ran (excerpts sevenBugs).
                         Match (everyBug OrderByCreation OrderAscending) e}
           \<and> inRequestedOrder (everyBug OrderByCreation OrderAscending) ys)
   \<and> QueryBugs sortShort sevenBugs [''a'', ''b'', ''c'', ''d'', ''e'', ''f'', ''g'']
         (Some (everyBug OrderByCreation OrderAscending))
       = Return [''g'', ''c'', ''d'', ''e'', ''f'', ''b'', ''a'']"
proof -
  let ?q = "everyBug OrderByCreation OrderAscending"
  let ?xs = "filter (Match ?q)
               (rangeValues (excerpts sevenBugs) [''a'', ''b'', ''c'', ''d'', ''e'', ''f'', ''g''])"
  have key: "OrderBy ?q = OrderById \<or> OrderBy ?q = OrderByCreation \<or> OrderBy ?q = OrderByEdit"
    by (simp add: everyBug_def)
  have srt: "\<forall>lt \<in> {BugsById, BugsByCreationTime, BugsByEditTime,
                  Reverse BugsById, Reverse BugsByCreationTime, Reverse BugsByEditTime}.
       sortedPermutation lt ?xs (sortShort lt ?xs)"
    by (rule sorters_sortShort)
  have one: "sortedPermutation BugsByCreationTime ?xs (sortShort BugsByCreationTime ?xs)"
    using srt by simp
  have q: "QueryBugs sortShort sevenBugs [''a'', ''b'', ''c'', ''d'', ''e'', ''f'', ''g''] (Some ?q)
       = Return [''g'', ''c'', ''d'', ''e'', ''f'', ''b'', ''a'']"
    by code_simp
  have k2: "OrderBy ?q = OrderByCreation"
    by (simp add: everyBug_def)
  have "\<exists>ys. QueryBugs sortShort sevenBugs [''a'', ''b'', ''c'', ''d'', ''e'', ''f'', ''g'']
                (Some ?q) = Return (map Id ys)
           \<and> mset ys = mset ?xs
           \<and> set ys = {e \<in> ran (excerpts sevenBugs). Match ?q e}
           \<and> inRequestedOrder ?q ys"
    using sevenBugs_order key srt
    by (rule QueryBugs_sorted_matches [where srt = sortShort and c = sevenBugs and q = ?q])
  then show ?thesis
    using sevenBugs_order k2 one q by blast
qed

text \<open>
  C3 with stability (Excerpts with equal keys keep the order of emission) does not hold.
  Seven Excerpts, emitted in the order a to g, with creation times 2, 2, 1, 1, 1, 1, 1,
  ordered by creation time ascending: the pass with gap 6 exchanges the first and the
  last, and the result has b before a although both have creation time 2 and a was
  emitted first.
\<close>

theorem QueryBugs_not_stable:
  "map Id (filter (Match (everyBug OrderByCreation OrderAscending))
             (rangeValues (excerpts sevenBugs) [''a'', ''b'', ''c'', ''d'', ''e'', ''f'', ''g'']))
     = [''a'', ''b'', ''c'', ''d'', ''e'', ''f'', ''g'']
   \<and> CreateUnixTime (excerptAt ''a'' 2) = CreateUnixTime (excerptAt ''b'' 2)
   \<and> QueryBugs sortShort sevenBugs [''a'', ''b'', ''c'', ''d'', ''e'', ''f'', ''g'']
         (Some (everyBug OrderByCreation OrderAscending))
       = Return [''g'', ''c'', ''d'', ''e'', ''f'', ''b'', ''a'']
   \<and> \<not> tiesKeepOrder CreateUnixTime
         (filter (Match (everyBug OrderByCreation OrderAscending))
            (rangeValues (excerpts sevenBugs) [''a'', ''b'', ''c'', ''d'', ''e'', ''f'', ''g'']))
         (sortShort BugsByCreationTime
            (filter (Match (everyBug OrderByCreation OrderAscending))
               (rangeValues (excerpts sevenBugs) [''a'', ''b'', ''c'', ''d'', ''e'', ''f'', ''g''])))"
proof -
  have q: "QueryBugs sortShort sevenBugs [''a'', ''b'', ''c'', ''d'', ''e'', ''f'', ''g'']
         (Some (everyBug OrderByCreation OrderAscending))
       = Return [''g'', ''c'', ''d'', ''e'', ''f'', ''b'', ''a'']"
    by code_simp
  have t: "\<not> tiesKeepOrder CreateUnixTime
         [excerptAt ''a'' 2, excerptAt ''b'' 2, excerptAt ''c'' 1, excerptAt ''d'' 1,
          excerptAt ''e'' 1, excerptAt ''f'' 1, excerptAt ''g'' 1]
         [excerptAt ''g'' 1, excerptAt ''c'' 1, excerptAt ''d'' 1, excerptAt ''e'' 1,
          excerptAt ''f'' 1, excerptAt ''b'' 2, excerptAt ''a'' 2]"
    by (simp add: tiesKeepOrder_def excerptAt_def)
  show ?thesis
    using q t by (simp add: sevenBugs_emitted sortShort_seven_by_creation) (simp add: excerptAt_def)
qed

end
